theory Spec2Isabelle
  imports Main "HOL-Library.Char_ord" "HOL-Library.List_Lexorder"
begin

section \<open>JavaScript values\<close>

text \<open>
  The backend is a Google Apps Script file. Cells of the sheet and fields of the objects
  passed by the front end are JavaScript primitives. Numbers are modelled as mathematical
  integers (the program only ever produces integers with \<open>parseInt\<close> and
  \<open>Math.abs\<close>); fractional numbers, \<open>NaN\<close> as a stored value, \<open>-0\<close> and dates are
  outside the model. Strings are lists of ASCII code units.
\<close>

datatype jsval = Undefined | Null | Bool bool | Num int | Str string

text \<open>JavaScript truthiness, \<open>a || b\<close> and \<open>a ?? b\<close>.\<close>

fun truthy :: "jsval \<Rightarrow> bool" where
  "truthy Undefined = False"
| "truthy Null = False"
| "truthy (Bool b) = b"
| "truthy (Num n) = (n \<noteq> 0)"
| "truthy (Str s) = (s \<noteq> [])"

definition js_or :: "jsval \<Rightarrow> jsval \<Rightarrow> jsval" where
  "js_or a b = (if truthy a then a else b)"

fun nullish :: "jsval \<Rightarrow> bool" where
  "nullish Undefined = True"
| "nullish Null = True"
| "nullish v = False"

definition js_coalesce :: "jsval \<Rightarrow> jsval \<Rightarrow> jsval" where
  "js_coalesce a b = (if nullish a then b else a)"

text \<open>\<open>xs[i]\<close>: reading past the end of an array gives \<open>undefined\<close>.\<close>

definition js_index :: "jsval list \<Rightarrow> nat \<Rightarrow> jsval" where
  "js_index xs i = (if i < length xs then xs ! i else Undefined)"

subsection \<open>Numbers to strings\<close>

definition digitChar :: "nat \<Rightarrow> char" where
  "digitChar d = ''0123456789'' ! d"

fun show_nat :: "nat \<Rightarrow> string" where
  "show_nat n = (if n < 10 then [digitChar n] else show_nat (n div 10) @ [digitChar (n mod 10)])"

declare show_nat.simps [simp del]

definition show_int :: "int \<Rightarrow> string" where
  "show_int i = (if i < 0 then CHR ''-'' # show_nat (nat (- i)) else show_nat (nat i))"

text \<open>\<open>String(v)\<close>, which is also \<open>v.toString()\<close> wherever the program calls it
  (always on a value that is neither \<open>null\<close> nor \<open>undefined\<close>).\<close>

fun js_String :: "jsval \<Rightarrow> string" where
  "js_String Undefined = ''undefined''"
| "js_String Null = ''null''"
| "js_String (Bool b) = (if b then ''true'' else ''false'')"
| "js_String (Num n) = show_int n"
| "js_String (Str s) = s"

subsection \<open>Whitespace, trimming, splitting, upper case\<close>

text \<open>The ASCII white space of \<open>\s\<close>, \<open>trim\<close> and \<open>parseInt\<close>: tab, line feed,
  vertical tab, form feed, carriage return and space.\<close>

definition isWhite :: "char \<Rightarrow> bool" where
  "isWhite c = ((of_char c :: nat) \<in> {9, 10, 11, 12, 13, 32})"

definition js_trim :: "string \<Rightarrow> string" where
  "js_trim s = rev (dropWhile isWhite (rev (dropWhile isWhite s)))"

text \<open>\<open>s.split(/\s+/)\<close>: the pieces between the maximal runs of white space. A run at
  the start or at the end leaves an empty piece there, and the empty string splits into
  one empty piece.\<close>

function js_split_ws :: "string \<Rightarrow> string list" where
  "js_split_ws [] = [[]]"
| "js_split_ws (c # cs) =
     (if isWhite c then [] # js_split_ws (dropWhile isWhite cs)
      else (case js_split_ws cs of
              [] \<Rightarrow> [[c]]
            | t # ts \<Rightarrow> (c # t) # ts))"
  by pat_completeness auto
termination
  by (relation "measure length") (auto simp: less_Suc_eq_le length_dropWhile_le)

definition toUpperCase :: "char \<Rightarrow> char" where
  "toUpperCase c =
     (case map_of (zip ''abcdefghijklmnopqrstuvwxyz'' ''ABCDEFGHIJKLMNOPQRSTUVWXYZ'') c of
        Some u \<Rightarrow> u
      | None \<Rightarrow> c)"

subsection \<open>parseInt\<close>

definition isDigit :: "char \<Rightarrow> bool" where
  "isDigit c = (let n = (of_char c :: nat) in 48 \<le> n \<and> n \<le> 57)"

definition digitVal :: "char \<Rightarrow> nat" where
  "digitVal c = of_char c - 48"

definition digitsVal :: "string \<Rightarrow> nat" where
  "digitsVal ds = foldl (\<lambda>a c. 10 * a + digitVal c) 0 ds"

text \<open>\<open>parseInt(s, 10)\<close> on a string: skip leading white space, read an optional
  sign, then the longest run of decimal digits; no digit gives \<open>NaN\<close> (here \<open>None\<close>).
  Whatever follows the digits is ignored.\<close>

definition parseInt_str :: "string \<Rightarrow> int option" where
  "parseInt_str s =
     (let s1 = dropWhile isWhite s;
          neg = (s1 \<noteq> [] \<and> hd s1 = CHR ''-'');
          s2 = (if s1 \<noteq> [] \<and> (hd s1 = CHR ''-'' \<or> hd s1 = CHR ''+'') then tl s1 else s1);
          ds = takeWhile isDigit s2
      in if ds = [] then None
         else Some (if neg then - int (digitsVal ds) else int (digitsVal ds)))"

text \<open>\<open>parseInt(v, 10)\<close> first converts its argument to a string.\<close>

definition parseInt :: "jsval \<Rightarrow> int option" where
  "parseInt v = parseInt_str (js_String v)"

section \<open>Derived fields\<close>

definition makeAbbreviation :: "jsval \<Rightarrow> string" where
  "makeAbbreviation name =
     (if \<not> truthy name then []
      else concat (map (\<lambda>w. if w \<noteq> [] then [toUpperCase (hd w)] else [])
                       (js_split_ws (js_trim (js_String name)))))"

definition computeNumericYear :: "jsval \<Rightarrow> jsval \<Rightarrow> int" where
  "computeNumericYear year era =
     (case parseInt year of
        None \<Rightarrow> 0
      | Some y \<Rightarrow> (if era = Str ''BC'' then - \<bar>y\<bar> else \<bar>y\<bar>))"

text \<open>The abbreviation as the specification words it: split the trimmed name at white
  space, keep the non-empty tokens, take the first character of each in upper case.\<close>

fun split_at_white :: "string \<Rightarrow> string list" where
  "split_at_white [] = [[]]"
| "split_at_white (c # cs) =
     (if isWhite c then [] # split_at_white cs
      else (case split_at_white cs of
              [] \<Rightarrow> [[c]]
            | t # ts \<Rightarrow> (c # t) # ts))"

definition spec_abbreviation :: "string \<Rightarrow> string" where
  "spec_abbreviation s =
     map (\<lambda>t. toUpperCase (hd t)) (filter (\<lambda>t. t \<noteq> []) (split_at_white (js_trim s)))"

section \<open>The sheet\<close>

text \<open>
  The spreadsheet service is the environment of the program. A sheet is a grid of cells
  without bound in either direction; a cell that was never written holds the empty
  string, which is what \<open>getValues\<close> returns for it. The grid is kept as a list of
  rows, each a list of cells, and every cell beyond the lists is empty. Positions in the
  Apps Script calls count from 1, positions of \<open>cellAt\<close> from 0.
\<close>

type_synonym grid = "jsval list list"

abbreviation blank :: jsval where
  "blank \<equiv> Str []"

definition cellAt :: "grid \<Rightarrow> nat \<Rightarrow> nat \<Rightarrow> jsval" where
  "cellAt g r c = (if r < length g \<and> c < length (g ! r) then g ! r ! c else blank)"

definition rowBlank :: "jsval list \<Rightarrow> bool" where
  "rowBlank row = list_all (\<lambda>v. v = blank) row"

text \<open>\<open>getLastRow()\<close> and \<open>getLastColumn()\<close>: the position of the last row
  (column) that has content, 0 on an empty sheet.\<close>

definition getLastRow :: "grid \<Rightarrow> nat" where
  "getLastRow g = length (dropWhile rowBlank (rev g))"

definition rowWidth :: "jsval list \<Rightarrow> nat" where
  "rowWidth row = length (dropWhile (\<lambda>v. v = blank) (rev row))"

definition getLastColumn :: "grid \<Rightarrow> nat" where
  "getLastColumn g = foldr (\<lambda>row m. max (rowWidth row) m) g 0"

text \<open>A range is \<open>(row, column, numRows, numColumns)\<close>.\<close>

type_synonym range = "nat \<times> nat \<times> nat \<times> nat"

fun getValues :: "range \<Rightarrow> grid \<Rightarrow> jsval list list" where
  "getValues (r, c, nr, nc) g =
     map (\<lambda>i. map (\<lambda>j. cellAt g i j) [c - 1 ..< c - 1 + nc]) [r - 1 ..< r - 1 + nr]"

definition writeRow :: "nat \<Rightarrow> nat \<Rightarrow> jsval list \<Rightarrow> grid \<Rightarrow> grid" where
  "writeRow r c vs g =
     (let g' = g @ replicate (r - length g) [];
          old = g' ! (r - 1);
          old' = old @ replicate ((c - 1) - length old) blank
      in g'[r - 1 := take (c - 1) old' @ vs @ drop (c - 1 + length vs) old])"

fun writeRows :: "nat \<Rightarrow> nat \<Rightarrow> jsval list list \<Rightarrow> grid \<Rightarrow> grid" where
  "writeRows r c [] g = g"
| "writeRows r c (vs # rest) g = writeRows (Suc r) c rest (writeRow r c vs g)"

fun setValues :: "range \<Rightarrow> jsval list list \<Rightarrow> grid \<Rightarrow> grid" where
  "setValues (r, c, nr, nc) vals g = writeRows r c vals g"

fun setValue :: "range \<Rightarrow> jsval \<Rightarrow> grid \<Rightarrow> grid" where
  "setValue (r, c, nr, nc) v g = writeRows r c (replicate nr (replicate nc v)) g"

definition insertColumnBefore :: "nat \<Rightarrow> grid \<Rightarrow> grid" where
  "insertColumnBefore k g =
     map (\<lambda>row. let row' = row @ replicate ((k - 1) - length row) blank
                in take (k - 1) row' @ blank # drop (k - 1) row') g"


definition appendRow :: "jsval list \<Rightarrow> grid \<Rightarrow> grid" where
  "appendRow vs g = writeRow (getLastRow g + 1) 1 vs g"

section \<open>The store, its failures, and sequencing\<close>

text \<open>
  Any call into the spreadsheet service may throw. The store carries a schedule of
  faults: each call consumes the head of the schedule and throws its message when there
  is one; on an exhausted schedule no call fails. \<open>sheet\<close> is \<open>None\<close> while the
  spreadsheet has no sheet named \<open>TimelineData\<close>.
\<close>

datatype exn = StoreError string | TypeError string

fun exn_message :: "exn \<Rightarrow> string" where
  "exn_message (StoreError m) = m"
| "exn_message (TypeError m) = m"

datatype 'a outcome = Throw exn | Ok 'a

record store =
  sheet :: "grid option"
  faults :: "string option list"

type_synonym 'a io = "store \<Rightarrow> 'a outcome \<times> store"

definition ret :: "'a \<Rightarrow> 'a io" where
  "ret a st = (Ok a, st)"

definition throw :: "exn \<Rightarrow> 'a io" where
  "throw e st = (Throw e, st)"

definition andThen :: "'a io \<Rightarrow> ('a \<Rightarrow> 'b io) \<Rightarrow> 'b io" where
  "andThen m f st = (case m st of (Throw e, st') \<Rightarrow> (Throw e, st') | (Ok a, st') \<Rightarrow> f a st')"

definition tryCatch :: "'a io \<Rightarrow> (exn \<Rightarrow> 'a io) \<Rightarrow> 'a io" where
  "tryCatch m h st = (case m st of (Throw e, st') \<Rightarrow> h e st' | (Ok a, st') \<Rightarrow> (Ok a, st'))"

definition grid_of :: "store \<Rightarrow> grid" where
  "grid_of st = (case sheet st of None \<Rightarrow> [] | Some g \<Rightarrow> g)"

definition api :: "(store \<Rightarrow> 'a \<times> store) \<Rightarrow> 'a io" where
  "api f st =
     (case faults st of
        Some m # fs \<Rightarrow> (Throw (StoreError m), st\<lparr>faults := fs\<rparr>)
      | _ \<Rightarrow> (case f (st\<lparr>faults := tl (faults st)\<rparr>) of (a, st') \<Rightarrow> (Ok a, st')))"

text \<open>A call that reads the sheet, and a call that changes it.\<close>

definition rd :: "(grid \<Rightarrow> 'a) \<Rightarrow> 'a io" where
  "rd f = api (\<lambda>st. (f (grid_of st), st))"

definition wr :: "(grid \<Rightarrow> grid) \<Rightarrow> unit io" where
  "wr f = api (\<lambda>st. ((), st\<lparr>sheet := Some (f (grid_of st))\<rparr>))"

definition getActiveSpreadsheet :: "unit io" where
  "getActiveSpreadsheet = api (\<lambda>st. ((), st))"

definition getSheetByName :: "bool io" where
  "getSheetByName = api (\<lambda>st. (sheet st \<noteq> None, st))"

definition insertSheet :: "unit io" where
  "insertSheet = api (\<lambda>st. ((), st\<lparr>sheet := Some []\<rparr>))"

definition getRange :: "nat \<Rightarrow> nat \<Rightarrow> nat \<Rightarrow> nat \<Rightarrow> range io" where
  "getRange r c nr nc = api (\<lambda>st. ((r, c, nr, nc), st))"

section \<open>Schema\<close>

definition REQUIRED_HEADERS :: "string list" where
  "REQUIRED_HEADERS =
     [''TimelineName'', ''EventName'', ''Year'', ''Era'', ''NumericYear'', ''Abbreviation'',
      ''Description'']"

definition OLD_HEADERS :: "string list" where
  "OLD_HEADERS =
     [''EventName'', ''Year'', ''Era'', ''NumericYear'', ''Abbreviation'', ''Description'']"

definition normalized :: "jsval list \<Rightarrow> string list" where
  "normalized arr = map (\<lambda>h. js_trim (js_String (js_or h (Str [])))) arr"

definition getSheet :: "unit io" where
  "getSheet =
     andThen getActiveSpreadsheet (\<lambda>ss.
     andThen getSheetByName (\<lambda>found.
     andThen (if \<not> found then insertSheet else ret ()) (\<lambda>_.
     andThen (rd getLastRow) (\<lambda>lastRow.
     andThen (rd getLastColumn) (\<lambda>lastCol.
       if lastRow = 0 then
         andThen (getRange 1 1 1 (length REQUIRED_HEADERS)) (\<lambda>rng.
           wr (setValues rng [map Str REQUIRED_HEADERS]))
       else
         andThen (getRange 1 1 1 (max lastCol (length REQUIRED_HEADERS))) (\<lambda>rng.
         andThen (rd (getValues rng)) (\<lambda>vals.
           let headers = take (length REQUIRED_HEADERS) (vals ! 0);
               h = normalized headers;
               isOld = (h ! 0 = OLD_HEADERS ! 0 \<and> h ! 1 = OLD_HEADERS ! 1 \<and>
                        h ! 2 = OLD_HEADERS ! 2 \<and> h ! 3 = OLD_HEADERS ! 3 \<and>
                        h ! 4 = OLD_HEADERS ! 4 \<and> h ! 5 = OLD_HEADERS ! 5)
           in if isOld then
                andThen (wr (insertColumnBefore 1)) (\<lambda>_.
                andThen (getRange 1 1 1 (length REQUIRED_HEADERS)) (\<lambda>rng.
                andThen (wr (setValues rng [map Str REQUIRED_HEADERS])) (\<lambda>_.
                andThen (rd getLastRow) (\<lambda>lr.
                  if lr > 1 then
                    andThen (getRange 2 1 (lr - 1) 1) (\<lambda>rng.
                      wr (setValue rng (Str ''Timeline 1'')))
                  else ret ()))))
              else
                andThen
                  (if list_ex (\<lambda>i. REQUIRED_HEADERS ! i \<noteq> h ! i)
                        [0 ..< length REQUIRED_HEADERS]
                   then ret True
                   else andThen (rd getLastColumn)
                          (\<lambda>lc. ret (lc < length REQUIRED_HEADERS)))
                  (\<lambda>needRewrite.
                     if needRewrite then
                       andThen (getRange 1 1 1 (length REQUIRED_HEADERS)) (\<lambda>rng.
                         wr (setValues rng [map Str REQUIRED_HEADERS]))
                     else ret ()))))))))"

section \<open>Reading: decoding, grouping, sorting\<close>

record event =
  name :: jsval
  year :: jsval
  era :: jsval
  numericYear :: jsval
  "abbreviation" :: jsval
  description :: jsval
  timelineName :: string

record timeline =
  tl_name :: string
  events :: "event list"

record grouped =
  timelines :: "timeline list"
  timelineNames :: "string list"

text \<open>The body of the \<open>forEach\<close> in \<open>getEventsGrouped\<close>, up to the event object.\<close>

definition decodeRow :: "jsval list \<Rightarrow> event" where
  "decodeRow row =
     (let timelineName = js_String (js_or (js_index row 0) (Str ''Untitled''));
          name = js_or (js_index row 1) (Str []);
          year = (if js_index row 2 \<noteq> Str [] \<and> js_index row 2 \<noteq> Null
                  then js_index row 2 else Str []);
          era = js_or (js_index row 3) (Str []);
          numericYear = (if js_index row 4 \<noteq> Str [] \<and> js_index row 4 \<noteq> Null
                         then js_index row 4
                         else Num (computeNumericYear year era));
          abbreviation = js_or (js_index row 5) (Str (makeAbbreviation name));
          description = js_or (js_index row 6) (Str [])
      in \<lparr> name = name, year = year, era = era, numericYear = numericYear,
           abbreviation = abbreviation, description = description,
           timelineName = timelineName \<rparr>)"

text \<open>
  \<open>map\<close> is a plain object, so \<open>map[timelineName]\<close> also finds what every object
  inherits from \<open>Object.prototype\<close>. For such a name the test \<open>!map[timelineName]\<close>
  is false although no array was stored, and \<open>.push\<close> is not a function there: the call
  throws a \<open>TypeError\<close>. The object is kept as an association list in order of first
  insertion.
\<close>

definition inheritedNames :: "string list" where
  "inheritedNames =
     [''constructor'', ''hasOwnProperty'', ''isPrototypeOf'', ''propertyIsEnumerable'',
      ''toLocaleString'', ''toString'', ''valueOf'', ''__proto__'', ''__defineGetter__'',
      ''__defineSetter__'', ''__lookupGetter__'', ''__lookupSetter__'']"

fun groupRows ::
  "jsval list list \<Rightarrow> (string \<times> event list) list \<Rightarrow> exn + (string \<times> event list) list" where
  "groupRows [] m = Inr m"
| "groupRows (row # rows) m =
     (let ev = decodeRow row; tn = timelineName ev
      in if tn \<in> set inheritedNames
         then Inl (TypeError ''map[timelineName].push is not a function'')
         else groupRows rows
                (case map_of m tn of
                   None \<Rightarrow> m @ [(tn, [ev])]
                 | Some evs \<Rightarrow> map (\<lambda>(k, v). if k = tn then (k, v @ [ev]) else (k, v)) m))"

text \<open>
  The comparator \<open>(a, b) => (a.numericYear || 0) - (b.numericYear || 0)\<close>. The
  subtraction converts both sides to numbers; a text that is no numeral gives \<open>NaN\<close>
  (\<open>None\<close>), and so does the difference. Texts that JavaScript reads as a number that is
  not a decimal integer (a fraction, an exponent, a hexadecimal numeral) are outside the
  model.
\<close>

definition allDigits :: "string \<Rightarrow> bool" where
  "allDigits s = (s \<noteq> [] \<and> list_all isDigit s)"

definition toNumber_str :: "string \<Rightarrow> int option" where
  "toNumber_str s =
     (let t = js_trim s
      in if t = [] then Some 0
         else if hd t = CHR ''-'' \<and> allDigits (tl t) then Some (- int (digitsVal (tl t)))
         else if hd t = CHR ''+'' \<and> allDigits (tl t) then Some (int (digitsVal (tl t)))
         else if allDigits t then Some (int (digitsVal t))
         else None)"

fun toNumber :: "jsval \<Rightarrow> int option" where
  "toNumber Undefined = None"
| "toNumber Null = Some 0"
| "toNumber (Bool b) = Some (if b then 1 else 0)"
| "toNumber (Num n) = Some n"
| "toNumber (Str s) = toNumber_str s"

definition sortKey :: "event \<Rightarrow> int option" where
  "sortKey a = toNumber (js_or (numericYear a) (Num 0))"

definition compareFn :: "event \<Rightarrow> event \<Rightarrow> int option" where
  "compareFn a b =
     (case (sortKey a, sortKey b) of
        (Some x, Some y) \<Rightarrow> Some (x - y)
      | _ \<Rightarrow> None)"

text \<open>
  \<open>Array.prototype.sort\<close> with a comparator is stable: an element moves behind
  another only when the comparator returns a positive number, and a \<open>NaN\<close> counts as
  0. Any stable sort gives the same result for a consistent comparator; it is written
  here as insertion from the right.
\<close>

definition movesBehind :: "event \<Rightarrow> event \<Rightarrow> bool" where
  "movesBehind a b = (case compareFn a b of Some d \<Rightarrow> d > 0 | None \<Rightarrow> False)"

fun insertEvent :: "event \<Rightarrow> event list \<Rightarrow> event list" where
  "insertEvent x [] = [x]"
| "insertEvent x (y # ys) = (if movesBehind x y then y # insertEvent x ys else x # y # ys)"

definition sortEvents :: "event list \<Rightarrow> event list" where
  "sortEvents xs = foldr insertEvent xs []"

definition lookupGroup :: "(string \<times> event list) list \<Rightarrow> string \<Rightarrow> event list" where
  "lookupGroup m k = (case map_of m k of None \<Rightarrow> [] | Some evs \<Rightarrow> evs)"

text \<open>\<open>Object.keys(map).sort()\<close>: the keys are distinct and the default sort orders
  strings by code units, so the order in which \<open>Object.keys\<close> lists them is
  immaterial.\<close>

definition getEventsGrouped :: "grouped io" where
  "getEventsGrouped =
     andThen getSheet (\<lambda>sheet.
     andThen (rd getLastRow) (\<lambda>lastRow.
       if lastRow < 2 then ret \<lparr> timelines = [], timelineNames = [] \<rparr>
       else
         andThen (getRange 2 1 (lastRow - 1) (length REQUIRED_HEADERS)) (\<lambda>rng.
         andThen (rd (getValues rng)) (\<lambda>data.
           case groupRows data [] of
             Inl e \<Rightarrow> throw e
           | Inr m \<Rightarrow>
               let timelines =
                     map (\<lambda>k. \<lparr> tl_name = k, events = sortEvents (lookupGroup m k) \<rparr>)
                         (sort (map fst m))
               in ret \<lparr> timelines = timelines, timelineNames = map tl_name timelines \<rparr>))))"

definition getTimelineNames :: "string list io" where
  "getTimelineNames = andThen getEventsGrouped (\<lambda>grouped. ret (timelineNames grouped))"

section \<open>Mutations\<close>

record result =
  success :: bool
  message :: string

text \<open>The object the front end passes to \<open>addEvent\<close> and, with \<open>original\<close>, to
  \<open>updateEvent\<close>; a property that is not there reads as \<open>Undefined\<close>.\<close>

record compositeKey =
  key_timelineName :: jsval
  key_name :: jsval
  key_year :: jsval
  key_era :: jsval

record eventData =
  in_timelineName :: jsval
  in_name :: jsval
  in_year :: jsval
  in_era :: jsval
  in_description :: jsval

record updateData = eventData +
  original :: "compositeKey option"

definition quote :: string where
  "quote = [CHR 0x27]"

definition addEvent :: "eventData option \<Rightarrow> result io" where
  "addEvent eventData =
     tryCatch
       (case eventData of
          None \<Rightarrow> ret \<lparr> success = False, message = ''No event data.'' \<rparr>
        | Some d \<Rightarrow>
            let timelineName = js_String (js_or (in_timelineName d) (Str ''Timeline 1''));
                name = js_trim (js_String (js_or (in_name d) (Str [])));
                yearNum = parseInt (in_year d);
                era = js_String (js_or (in_era d) (Str ''CE''));
                description = js_String (js_or (in_description d) (Str []))
            in if name = [] then ret \<lparr> success = False, message = ''Missing event name.'' \<rparr>
               else (case yearNum of
                       None \<Rightarrow> ret \<lparr> success = False, message = ''Year must be a number.'' \<rparr>
                     | Some y \<Rightarrow>
                         let numericYear = computeNumericYear (Num y) (Str era);
                             abbreviation = makeAbbreviation (Str name)
                         in andThen getSheet (\<lambda>sheet.
                            andThen (wr (appendRow [Str timelineName, Str name, Num y, Str era,
                                                    Num numericYear, Str abbreviation,
                                                    Str description])) (\<lambda>_.
                              ret \<lparr> success = True,
                                    message = ''Event '' @ quote @ name @ quote @ '' added to ''
                                              @ quote @ timelineName @ quote @ ''.'' \<rparr>))))
       (\<lambda>e. ret \<lparr> success = False, message = ''Error adding event: '' @ exn_message e \<rparr>)"

fun findIndex :: "('a \<Rightarrow> bool) \<Rightarrow> 'a list \<Rightarrow> nat option" where
  "findIndex P [] = None"
| "findIndex P (x # xs) = (if P x then Some 0 else map_option Suc (findIndex P xs))"

text \<open>The predicate both \<open>findIndex\<close> calls use: the four key cells equal the key
  after \<open>String(...)\<close> on both sides.\<close>

definition keyMatches :: "compositeKey \<Rightarrow> jsval list \<Rightarrow> bool" where
  "keyMatches k row =
     (js_String (js_index row 0) = js_String (key_timelineName k) \<and>
      js_String (js_index row 1) = js_String (key_name k) \<and>
      js_String (js_index row 2) = js_String (key_year k) \<and>
      js_String (js_index row 3) = js_String (key_era k))"

definition updateEvent :: "updateData option \<Rightarrow> result io" where
  "updateEvent event =
     tryCatch
       (case (case event of None \<Rightarrow> None | Some ev \<Rightarrow> map_option (Pair ev) (original ev)) of
          None \<Rightarrow> ret \<lparr> success = False, message = ''Missing original identifiers.'' \<rparr>
        | Some (ev, orig) \<Rightarrow>
            andThen getSheet (\<lambda>sheet.
            andThen (rd getLastRow) (\<lambda>lastRow.
              if lastRow < 2 then ret \<lparr> success = False, message = ''No events to update.'' \<rparr>
              else
                andThen (getRange 2 1 (lastRow - 1) (length REQUIRED_HEADERS)) (\<lambda>rng.
                andThen (rd (getValues rng)) (\<lambda>data.
                  case findIndex (keyMatches orig) data of
                    None \<Rightarrow> ret \<lparr> success = False, message = ''Event not found for update.'' \<rparr>
                  | Some matchRowIndex \<Rightarrow>
                      let row = data ! matchRowIndex;
                          newTimeline = js_or (in_timelineName ev)
                                          (js_or (js_index row 0) (Str ''Timeline 1''));
                          newName = js_String (js_or (in_name ev) (js_or (js_index row 1) (Str [])))
                      in (case parseInt (js_coalesce (in_year ev) (js_index row 2)) of
                            None \<Rightarrow> ret \<lparr> success = False, message = ''Year must be a number.'' \<rparr>
                          | Some newYearNum \<Rightarrow>
                              let newEra = js_String (js_or (in_era ev)
                                                       (js_or (js_index row 3) (Str ''CE'')));
                                  newNumeric = computeNumericYear (Num newYearNum) (Str newEra);
                                  newAbbrev = makeAbbreviation (Str newName);
                                  newDesc = js_String (js_coalesce (in_description ev)
                                                        (js_coalesce (js_index row 6) (Str [])));
                                  targetRow = matchRowIndex + 2
                              in andThen (getRange targetRow 1 1 (length REQUIRED_HEADERS)) (\<lambda>rng.
                                 andThen (wr (setValues rng
                                                [[newTimeline, Str newName, Num newYearNum,
                                                  Str newEra, Num newNumeric, Str newAbbrev,
                                                  Str newDesc]])) (\<lambda>_.
                                   ret \<lparr> success = True,
                                         message = ''Event updated successfully.'' \<rparr>))))))))
       (\<lambda>e. ret \<lparr> success = False, message = ''Error updating event: '' @ exn_message e \<rparr>)"


section \<open>Vocabulary of the claims\<close>

text \<open>The first \<open>n\<close> cells of the header row, and the data rows as every operation
  reads them: rows 2 to \<open>getLastRow\<close>, seven cells each.\<close>

definition headerCells :: "grid \<Rightarrow> nat \<Rightarrow> jsval list" where
  "headerCells g n = map (cellAt g 0) [0 ..< n]"

definition dataRows :: "grid \<Rightarrow> jsval list list" where
  "dataRows g = getValues (2, 1, getLastRow g - 1, length REQUIRED_HEADERS) g"

text \<open>The grid that a call of \<open>getSheet\<close> leaves behind.\<close>

definition schemaGrid :: "store \<Rightarrow> grid" where
  "schemaGrid st = grid_of (snd (getSheet st))"

text \<open>The sort key the specification describes: the numeric year, with 0 for a value
  that is not numeric.\<close>

definition spec_sortKey :: "event \<Rightarrow> int" where
  "spec_sortKey a = (case sortKey a of None \<Rightarrow> 0 | Some n \<Rightarrow> n)"

text \<open>The grid that the migration branch of \<open>getSheet\<close> writes.\<close>

definition migrated :: "grid \<Rightarrow> grid" where
  "migrated g = (let g2 = writeRow (Suc 0) (Suc 0) (map Str REQUIRED_HEADERS) (insertColumnBefore (Suc 0) g)
        in if getLastRow g2 > Suc 0
              then writeRows 2 (Suc 0) (replicate (getLastRow g2 - 1) [Str ''Timeline 1'']) g2 else g2)"

section \<open>Example stores\<close>

definition legacyStore :: store where
  "legacyStore =
     \<lparr> sheet = Some [map Str OLD_HEADERS,
                      [Str ''Exodus'', Num 1446, Str ''BC'', Num (- 1446), Str ''E'', Str ''d1''],
                      [],
                      [Str ''First Temple'', Num 957, Str ''BC'', blank, blank, blank]],
       faults = [] \<rparr>"

definition timelineStore :: store where
  "timelineStore =
     \<lparr> sheet = Some [map Str REQUIRED_HEADERS,
                      [Str ''B'', Str ''Fall of Rome'', Num 476, Str ''CE'', Num 476, Str ''FOR'', Str ''d1''],
                      [Str ''A'', Str ''X'', Num 5, Str ''CE'', Num 5, Str ''ZZ'', Str ''d2''],
                      [Str ''B'', Str ''Exodus'', Num 1446, Str ''BC'', blank, blank, blank],
                      [Str ''A'', Str ''X'', Num 5, Str ''CE'', Num 5, Str ''X'', Str ''d3''],
                      [Str ''A'', Str ''Y'', Num 5, Str ''BC'', Num (- 5), Str ''Y'', blank]],
       faults = [] \<rparr>"

definition untitledStore :: store where
  "untitledStore =
     \<lparr> sheet = Some [map Str REQUIRED_HEADERS,
                      [blank, Str ''X'', Num 5, Str ''CE'', Num 5, Str ''X'', Str ''d'']],
       faults = [] \<rparr>"

definition keyX :: compositeKey where
  "keyX = \<lparr> key_timelineName = Str ''A'', key_name = Str ''X'', key_year = Num 5,
            key_era = Str ''CE'' \<rparr>"


definition yearOnly :: "jsval \<Rightarrow> compositeKey \<Rightarrow> updateData" where
  "yearOnly y k =
     \<lparr> in_timelineName = Undefined, in_name = Undefined, in_year = y, in_era = Undefined,
       in_description = Undefined, original = Some k \<rparr>"

definition blankEraStore :: store where
  "blankEraStore =
     \<lparr> sheet = Some [map Str REQUIRED_HEADERS,
                      [Str ''T1'', Str ''X'', Num 5, blank, Num 5, Str ''X'', Str ''d'']],
       faults = [] \<rparr>"

definition keyBlankEra :: compositeKey where
  "keyBlankEra = \<lparr> key_timelineName = Str ''T1'', key_name = Str ''X'', key_year = Num 5,
                   key_era = blank \<rparr>"



section \<open>Abbreviations\<close>

text \<open>Splitting at the maximal runs of white space and splitting at every white-space
  character leave the same non-empty tokens.\<close>

lemma js_split_ws_not_Nil: "js_split_ws s \<noteq> []"
  by (induction s rule: js_split_ws.induct) (auto split: list.splits)

lemma split_at_white_not_Nil: "split_at_white s \<noteq> []"
  by (induction s) (auto split: list.splits)

lemma split_at_white_dropWhile:
  "filter (\<lambda>t. t \<noteq> []) (split_at_white (dropWhile isWhite cs)) =
   filter (\<lambda>t. t \<noteq> []) (split_at_white cs)"
  by (induction cs) auto

lemma split_runs_agree:
  "hd (js_split_ws s) = hd (split_at_white s) \<and>
   filter (\<lambda>t. t \<noteq> []) (tl (js_split_ws s)) = filter (\<lambda>t. t \<noteq> []) (tl (split_at_white s))"
proof (induction s rule: js_split_ws.induct)
  case 1
  show ?case by simp
next
  case (2 c cs)
  show ?case
  proof (cases "isWhite c")
    case True
    let ?d = "dropWhile isWhite cs"
    from 2(1)[OF True]
    have "filter (\<lambda>t. t \<noteq> []) (js_split_ws ?d) = filter (\<lambda>t. t \<noteq> []) (split_at_white ?d)"
      using js_split_ws_not_Nil[of ?d] split_at_white_not_Nil[of ?d]
      by (cases "js_split_ws ?d"; cases "split_at_white ?d") auto
    with True show ?thesis by (simp add: split_at_white_dropWhile)
  next
    case False
    with 2(2)[OF False] show ?thesis
      using js_split_ws_not_Nil[of cs] split_at_white_not_Nil[of cs]
      by (cases "js_split_ws cs"; cases "split_at_white cs") auto
  qed
qed

lemma split_tokens_agree:
  "filter (\<lambda>t. t \<noteq> []) (js_split_ws s) = filter (\<lambda>t. t \<noteq> []) (split_at_white s)"
  using split_runs_agree[of s] js_split_ws_not_Nil[of s] split_at_white_not_Nil[of s]
  by (cases "js_split_ws s"; cases "split_at_white s") auto

lemma concat_initials:
  "concat (map (\<lambda>w. if w \<noteq> [] then [f w] else []) ws) = map f (filter (\<lambda>t. t \<noteq> []) ws)"
  by (induction ws) auto

text \<open>
  Claim C8. For every name string, \<open>makeAbbreviation\<close> is the abbreviation of the
  specification: the trimmed name split at white space, the first character of each
  non-empty token in upper case, concatenated. The empty name gives the empty string, and
  \<open>"First Temple"\<close> gives \<open>"FT"\<close>, \<open>"robert"\<close> gives \<open>"R"\<close>.
\<close>

theorem makeAbbreviation_spec:
  "makeAbbreviation (Str s) = spec_abbreviation s \<and>
   makeAbbreviation (Str ''First Temple'') = ''FT'' \<and>
   makeAbbreviation (Str []) = [] \<and>
   makeAbbreviation (Str ''robert'') = ''R''"
proof -
  have "makeAbbreviation (Str s) = spec_abbreviation s"
  proof (cases "s = []")
    case True
    then show ?thesis by (simp add: makeAbbreviation_def spec_abbreviation_def js_trim_def)
  next
    case False
    then show ?thesis
      by (simp add: makeAbbreviation_def spec_abbreviation_def concat_initials split_tokens_agree)
  qed
  moreover have "makeAbbreviation (Str ''First Temple'') = ''FT''"
    by (simp add: makeAbbreviation_def js_trim_def isWhite_def toUpperCase_def)
  moreover have "makeAbbreviation (Str []) = []"
    by (simp add: makeAbbreviation_def)
  moreover have "makeAbbreviation (Str ''robert'') = ''R''"
    by (simp add: makeAbbreviation_def js_trim_def isWhite_def toUpperCase_def)
  ultimately show ?thesis by blast
qed

section \<open>Numeric years\<close>

text \<open>\<open>parseInt\<close> reads back the decimal text of an integer, so \<open>parseInt\<close> of a
  number is that number.\<close>

lemma digit_cases: "d < 10 \<Longrightarrow> d \<in> {0, 1, 2, 3, 4, 5, 6, 7, 8, 9::nat}"
  by auto

lemma digitChar_props:
  assumes "d < 10"
  shows "isDigit (digitChar d)" "\<not> isWhite (digitChar d)" "digitVal (digitChar d) = d"
        "digitChar d \<noteq> CHR ''-''" "digitChar d \<noteq> CHR ''+''"
  using digit_cases[OF assms]
  by (auto simp: digitChar_def isDigit_def isWhite_def digitVal_def)

lemma show_nat_digits: "list_all isDigit (show_nat n) \<and> show_nat n \<noteq> []"
  by (induction n rule: show_nat.induct) (subst show_nat.simps, simp add: digitChar_props, subst show_nat.simps, simp)

lemma digitsVal_snoc: "digitsVal (ds @ [c]) = 10 * digitsVal ds + digitVal c"
  by (simp add: digitsVal_def)

lemma digitsVal_show_nat: "digitsVal (show_nat n) = n"
proof (induction n rule: show_nat.induct)
  case (1 n)
  show ?case
  proof (cases "n < 10")
    case True
    then show ?thesis by (subst show_nat.simps) (simp add: digitsVal_def digitChar_props)
  next
    case False
    with 1 show ?thesis
      by (subst show_nat.simps) (simp add: digitsVal_snoc digitChar_props)
  qed
qed

lemma isDigit_not_special: "isDigit c \<Longrightarrow> \<not> isWhite c \<and> c \<noteq> CHR ''-'' \<and> c \<noteq> CHR ''+''"
  by (auto simp: isDigit_def isWhite_def)

lemma parseInt_str_digits:
  assumes "ds \<noteq> []" and "list_all isDigit ds"
  shows "parseInt_str ds = Some (int (digitsVal ds))"
    and "parseInt_str (CHR ''-'' # ds) = Some (- int (digitsVal ds))"
proof -
  obtain c cs where ds: "ds = c # cs"
    using assms(1) by (cases ds) auto
  have c: "\<not> isWhite c" "c \<noteq> CHR ''-''" "c \<noteq> CHR ''+''" "isDigit c"
    using assms(2) isDigit_not_special[of c] by (auto simp: ds)
  have tw: "takeWhile isDigit cs = cs"
    using assms(2) by (simp add: ds list_all_iff)
  have nw: "\<not> isWhite CHR ''-''"
    by (simp add: isWhite_def)
  show "parseInt_str ds = Some (int (digitsVal ds))"
    using c by (simp add: parseInt_str_def ds tw)
  show "parseInt_str (CHR ''-'' # ds) = Some (- int (digitsVal ds))"
    using c nw by (simp add: parseInt_str_def ds tw)
qed

lemma parseInt_str_show_int: "parseInt_str (show_int i) = Some i"
  using parseInt_str_digits[of "show_nat (nat (- i))"] parseInt_str_digits[of "show_nat (nat i)"]
    show_nat_digits[of "nat (- i)"] show_nat_digits[of "nat i"]
  by (simp add: show_int_def digitsVal_show_nat)

lemma parseInt_Num: "parseInt (Num n) = Some n"
  by (simp add: parseInt_def parseInt_str_show_int)




section \<open>Calls on a store that does not fail\<close>

lemma nofault_eq: "faults st = [] \<Longrightarrow> st\<lparr>faults := []\<rparr> = st"
  by (cases st) simp

lemma api_ok: "faults st = [] \<Longrightarrow> api f st = (Ok (fst (f st)), snd (f st))"
  by (simp add: api_def nofault_eq split: prod.splits)

lemma rd_ok: "faults st = [] \<Longrightarrow> rd f st = (Ok (f (grid_of st)), st)"
  by (simp add: rd_def api_ok)

lemma wr_ok: "faults st = [] \<Longrightarrow> wr f st = (Ok (), st\<lparr>sheet := Some (f (grid_of st))\<rparr>)"
  by (simp add: wr_def api_ok)

lemma getRange_ok: "faults st = [] \<Longrightarrow> getRange r c nr nc st = (Ok (r, c, nr, nc), st)"
  by (simp add: getRange_def api_ok)

lemma getActiveSpreadsheet_ok: "faults st = [] \<Longrightarrow> getActiveSpreadsheet st = (Ok (), st)"
  by (simp add: getActiveSpreadsheet_def api_ok)

lemma getSheetByName_ok: "faults st = [] \<Longrightarrow> getSheetByName st = (Ok (sheet st \<noteq> None), st)"
  by (simp add: getSheetByName_def api_ok)

lemma insertSheet_ok: "faults st = [] \<Longrightarrow> insertSheet st = (Ok (), st\<lparr>sheet := Some []\<rparr>)"
  by (simp add: insertSheet_def api_ok)

lemma andThen_ok: "m st = (Ok a, st') \<Longrightarrow> andThen m f st = f a st'"
  by (simp add: andThen_def)

lemma grid_of_simps [simp]: "grid_of (st\<lparr>sheet := Some g\<rparr>) = g" "sheet st = Some g \<Longrightarrow> grid_of st = g"
  "sheet st = None \<Longrightarrow> grid_of st = []"
  by (simp_all add: grid_of_def)

section \<open>Cells after each sheet operation\<close>

text \<open>\<open>getLastRow\<close> and \<open>getLastColumn\<close> are characterised by the cells alone, so
  that two grids with the same cells agree on both.\<close>

lemma tail_blank_iff:
  "length (dropWhile P (rev xs)) \<le> n \<longleftrightarrow> (\<forall>i. n \<le> i \<and> i < length xs \<longrightarrow> P (xs ! i))"
proof (induction xs rule: rev_induct)
  case Nil
  show ?case by simp
next
  case (snoc x xs)
  show ?case
  proof (cases "P x")
    case True
    have "(\<forall>i. n \<le> i \<and> i < Suc (length xs) \<longrightarrow> P ((xs @ [x]) ! i)) \<longleftrightarrow>
          (\<forall>i. n \<le> i \<and> i < length xs \<longrightarrow> P (xs ! i))"
      using True by (auto simp: nth_append less_Suc_eq)
    with True snoc show ?thesis by simp
  next
    case False
    then show ?thesis
      by (auto simp: nth_append not_less_eq_eq dest!: spec[of _ "length xs"])
  qed
qed

lemma rowBlank_iff: "rowBlank row \<longleftrightarrow> (\<forall>c < length row. row ! c = blank)"
  by (simp add: rowBlank_def list_all_length)

lemma getLastRow_le_iff: "getLastRow g \<le> n \<longleftrightarrow> (\<forall>r c. n \<le> r \<longrightarrow> cellAt g r c = blank)"
  unfolding getLastRow_def tail_blank_iff rowBlank_iff cellAt_def
  by (auto)

lemma rowWidth_le_iff: "rowWidth row \<le> n \<longleftrightarrow> (\<forall>c. n \<le> c \<and> c < length row \<longrightarrow> row ! c = blank)"
  unfolding rowWidth_def tail_blank_iff ..

lemma foldr_max_le_iff: "foldr (\<lambda>row m. max (f row) m) g (0::nat) \<le> n \<longleftrightarrow> (\<forall>row \<in> set g. f row \<le> n)"
  by (induction g) auto

lemma getLastColumn_le_iff: "getLastColumn g \<le> n \<longleftrightarrow> (\<forall>r c. n \<le> c \<longrightarrow> cellAt g r c = blank)"
  unfolding getLastColumn_def foldr_max_le_iff rowWidth_le_iff cellAt_def
  by (auto simp: all_set_conv_all_nth)

lemma cell_pad_rows:
  "cellAt (g @ replicate n []) i j = cellAt g i j"
  by (auto simp: cellAt_def nth_append)

lemma cell_overwrite:
  fixes old vs :: "jsval list" and k :: nat
  defines "new \<equiv> take k (old @ replicate (k - length old) blank) @ vs @ drop (k + length vs) old"
  shows "(if j < length new then new ! j else blank) =
         (if k \<le> j \<and> j < k + length vs then vs ! (j - k)
          else if j < length old then old ! j else blank)"
proof -
  consider "j < k" | "k \<le> j" "j < k + length vs" | "k + length vs \<le> j"
    by linarith
  then show ?thesis
  proof cases
    case 1
    then show ?thesis
      by (auto simp: new_def nth_append min_def)
  next
    case 2
    then show ?thesis
      by (auto simp: new_def nth_append min_def)
  next
    case 3
    then show ?thesis
      by (auto simp: new_def nth_append min_def add.commute)
  qed
qed

lemma cellAt_writeRow:
  assumes "1 \<le> r" "1 \<le> c"
  shows "cellAt (writeRow r c vs g) i j =
     (if i = r - 1 \<and> c - 1 \<le> j \<and> j < c - 1 + length vs then vs ! (j - (c - 1)) else cellAt g i j)"
proof -
  let ?g = "g @ replicate (r - length g) []"
  let ?old = "?g ! (r - 1)"
  let ?new = "take (c - 1) (?old @ replicate ((c - 1) - length ?old) blank) @ vs
              @ drop (c - 1 + length vs) ?old"
  have w: "writeRow r c vs g = ?g[r - 1 := ?new]"
    by (simp add: writeRow_def Let_def)
  have len: "r - 1 < length ?g"
    using assms by auto
  show ?thesis
  proof (cases "i = r - 1")
    case True
    have "cellAt (writeRow r c vs g) i j = (if j < length ?new then ?new ! j else blank)"
      using len True by (simp add: w cellAt_def)
    also have "\<dots> = (if c - 1 \<le> j \<and> j < c - 1 + length vs then vs ! (j - (c - 1))
                     else if j < length ?old then ?old ! j else blank)"
      by (rule cell_overwrite)
    also have "(if j < length ?old then ?old ! j else blank) = cellAt ?g i j"
      using len True by (simp add: cellAt_def)
    finally show ?thesis
      using True by (simp add: cell_pad_rows)
  next
    case False
    have "cellAt (writeRow r c vs g) i j = cellAt ?g i j"
      using False by (simp add: w cellAt_def)
    then show ?thesis
      using False by (simp add: cell_pad_rows)
  qed
qed

lemma cellAt_insertColumn1:
  "cellAt (insertColumnBefore 1 g) r c = (if c = 0 then blank else cellAt g r (c - 1))"
  by (cases c) (auto simp: cellAt_def insertColumnBefore_def)


lemma cellAt_fill:
  "1 \<le> r \<Longrightarrow> 1 \<le> c \<Longrightarrow> cellAt (writeRows r c (replicate nr (replicate nc v)) g) i j =
     (if r - 1 \<le> i \<and> i < r - 1 + nr \<and> c - 1 \<le> j \<and> j < c - 1 + nc then v else cellAt g i j)"
  by (induction nr arbitrary: r g) (auto simp: cellAt_writeRow)

lemma getValues_nth:
  "i < nr \<Longrightarrow> j < nc \<Longrightarrow> getValues (r, c, nr, nc) g ! i ! j = cellAt g (r - 1 + i) (c - 1 + j)"
  by simp

section \<open>What \<open>getSheet\<close> does on a store that does not fail\<close>

lemma upt7: "[0 ..< 7] = [0, 1, 2, 3, 4, 5, 6]" "[0 ..< 6] = [0, 1, 2, 3, 4, 5]"
  by (simp_all add: upt_rec)

lemma eq_from_le_iff: "(\<And>n::nat. a \<le> n \<longleftrightarrow> b \<le> n) \<Longrightarrow> a = b"
  by (meson le_antisym order_refl)

lemma length_REQUIRED [simp]: "length REQUIRED_HEADERS = 7"
  by (simp add: REQUIRED_HEADERS_def)

lemma header_read:
  "7 \<le> n \<Longrightarrow> take 7 (getValues (Suc 0, Suc 0, Suc 0, n) g ! 0) = headerCells g 7"
  by (simp add: headerCells_def take_map)

lemma length_normalized_header: "length (normalized (headerCells g 7)) = 7"
  by (simp add: normalized_def headerCells_def)

lemma isOld_iff:
  assumes "length h = 7"
  shows "(h ! 0 = OLD_HEADERS ! 0 \<and> h ! Suc 0 = OLD_HEADERS ! Suc 0 \<and> h ! 2 = OLD_HEADERS ! 2 \<and>
          h ! 3 = OLD_HEADERS ! 3 \<and> h ! 4 = OLD_HEADERS ! 4 \<and> h ! 5 = OLD_HEADERS ! 5)
         \<longleftrightarrow> take 6 h = OLD_HEADERS"
proof -
  obtain h0 h1 h2 h3 h4 h5 h6 where hh: "h = [h0, h1, h2, h3, h4, h5, h6]"
    using assms by (auto simp: length_Suc_conv eval_nat_numeral)
  show ?thesis
    by (simp add: hh OLD_HEADERS_def)
qed

lemma mismatch_iff:
  assumes "length h = 7"
  shows "list_ex (\<lambda>i. REQUIRED_HEADERS ! i \<noteq> h ! i) [0 ..< 7] \<longleftrightarrow> h \<noteq> REQUIRED_HEADERS"
proof -
  have "h \<noteq> REQUIRED_HEADERS \<longleftrightarrow> (\<exists>i<7. REQUIRED_HEADERS ! i \<noteq> h ! i)"
    using assms list_eq_iff_nth_eq[of h REQUIRED_HEADERS] by auto
  also have "\<dots> \<longleftrightarrow> (\<exists>i\<in>set [0 ..< 7]. REQUIRED_HEADERS ! i \<noteq> h ! i)"
    by (simp add: Bex_def)
  finally show ?thesis
    by (simp only: list_ex_iff)
qed

lemma getSheet_empty:
  assumes "faults st = []" "getLastRow (grid_of st) = 0"
  shows "getSheet st = (Ok (), st\<lparr>sheet := Some (writeRow 1 1 (map Str REQUIRED_HEADERS) (grid_of st))\<rparr>)"
proof (cases "sheet st")
  case None
  then have g: "grid_of st = []" by simp
  show ?thesis
    using assms None
    by (simp add: getSheet_def andThen_def getActiveSpreadsheet_ok getSheetByName_ok insertSheet_ok
        rd_ok wr_ok getRange_ok ret_def g getLastRow_def)
next
  case (Some g)
  then show ?thesis
    using assms
    by (simp add: getSheet_def andThen_def getActiveSpreadsheet_ok getSheetByName_ok
        rd_ok wr_ok getRange_ok ret_def)
qed

lemma REQUIRED_not_legacy:
  "\<not> (REQUIRED_HEADERS ! 0 = OLD_HEADERS ! 0 \<and> REQUIRED_HEADERS ! Suc 0 = OLD_HEADERS ! Suc 0 \<and>
      REQUIRED_HEADERS ! 2 = OLD_HEADERS ! 2 \<and> REQUIRED_HEADERS ! 3 = OLD_HEADERS ! 3 \<and>
      REQUIRED_HEADERS ! 4 = OLD_HEADERS ! 4 \<and> REQUIRED_HEADERS ! 5 = OLD_HEADERS ! 5)"
  by (simp add: REQUIRED_HEADERS_def OLD_HEADERS_def)

lemma REQUIRED_not_OLD_6: "take 6 REQUIRED_HEADERS \<noteq> OLD_HEADERS"
  by (simp add: REQUIRED_HEADERS_def OLD_HEADERS_def)

lemma list_ex_False: "list_ex (\<lambda>i. False) xs = False"
  by (simp add: list_ex_iff)

lemma getSheet_nonempty:
  assumes "faults st = []" "getLastRow (grid_of st) \<noteq> 0"
  shows "getSheet st =
    (if take 6 (normalized (headerCells (grid_of st) 7)) = OLD_HEADERS then
       (let g2 = writeRow 1 1 (map Str REQUIRED_HEADERS) (insertColumnBefore 1 (grid_of st))
        in (Ok (), st\<lparr>sheet := Some (if getLastRow g2 > 1
              then writeRows 2 1 (replicate (getLastRow g2 - 1) [Str ''Timeline 1'']) g2 else g2)\<rparr>))
     else if normalized (headerCells (grid_of st) 7) \<noteq> REQUIRED_HEADERS \<or>
             getLastColumn (grid_of st) < 7 then
       (Ok (), st\<lparr>sheet := Some (writeRow 1 1 (map Str REQUIRED_HEADERS) (grid_of st))\<rparr>)
     else (Ok (), st))"
proof -
  obtain g where s: "sheet st = Some g"
    using assms(2) by (cases "sheet st") (auto simp: getLastRow_def)
  then have g: "grid_of st = g"
    by simp
  let ?h = "normalized (headerCells g 7)"
  have lh: "length ?h = 7"
    by (rule length_normalized_header)
  have pos: "0 < getLastRow g"
    using assms(2) g by simp
  note run = getSheet_def andThen_def getActiveSpreadsheet_ok getSheetByName_ok
        rd_ok wr_ok getRange_ok ret_def Let_def header_read
  show ?thesis
  proof (cases "take 6 ?h = OLD_HEADERS")
    case True
    then show ?thesis
      using assms(1) s pos unfolding g
      by (simp add: run isOld_iff [OF lh] del: getValues.simps)
  next
    case notOld: False
    show ?thesis
    proof (cases "?h = REQUIRED_HEADERS")
      case False
      then show ?thesis
        using assms(1) s pos notOld unfolding g
        by (simp add: run isOld_iff [OF lh] mismatch_iff [OF lh] del: getValues.simps)
    next
      case True
      have read: "normalized (take 7 (getValues (Suc 0, Suc 0, Suc 0, n) g ! 0)) = REQUIRED_HEADERS"
        if "7 \<le> n" for n
        using header_read[OF that, of g] True by simp
      show ?thesis
        using assms(1) s pos unfolding g True
        by (simp add: getSheet_def andThen_def getActiveSpreadsheet_ok getSheetByName_ok
            rd_ok wr_ok getRange_ok ret_def Let_def read REQUIRED_not_legacy REQUIRED_not_OLD_6
            list_ex_False del: getValues.simps)
    qed
  qed
qed

lemma headerCells_nth: "i < n \<Longrightarrow> headerCells g n ! i = cellAt g 0 i"
  by (simp add: headerCells_def)

lemma headerCells_eq_iff:
  "length xs = n \<Longrightarrow> headerCells g n = xs \<longleftrightarrow> (\<forall>i<n. cellAt g 0 i = xs ! i)"
  by (auto simp: list_eq_iff_nth_eq headerCells_def)

lemma normalized_REQUIRED: "normalized (map Str REQUIRED_HEADERS) = REQUIRED_HEADERS"
  by (simp add: normalized_def REQUIRED_HEADERS_def js_or_def js_trim_def isWhite_def)

lemma normalized_OLD: "normalized (map Str OLD_HEADERS) = OLD_HEADERS"
  by (simp add: normalized_def OLD_HEADERS_def js_or_def js_trim_def isWhite_def)

lemma nonblank_bounds:
  assumes "cellAt g r c \<noteq> blank"
  shows "r < getLastRow g" "c < getLastColumn g"
proof -
  have "\<not> getLastRow g \<le> r" using assms getLastRow_le_iff[of g r] by auto
  then show "r < getLastRow g" by simp
  have "\<not> getLastColumn g \<le> c" using assms getLastColumn_le_iff[of g c] by auto
  then show "c < getLastColumn g" by simp
qed

lemma required_header_cells:
  assumes "headerCells g 7 = map Str REQUIRED_HEADERS"
  shows "cellAt g 0 0 = Str ''TimelineName''" "cellAt g 0 6 = Str ''Description''"
  using headerCells_nth[of 0 7 g] headerCells_nth[of 6 7 g] assms
  by (simp_all add: REQUIRED_HEADERS_def)

lemma getSheet_noop:
  assumes "faults st = []" "headerCells (grid_of st) 7 = map Str REQUIRED_HEADERS"
  shows "getSheet st = (Ok (), st)"
proof -
  let ?g = "grid_of st"
  have "0 < getLastRow ?g" "6 < getLastColumn ?g"
    using required_header_cells[OF assms(2)] nonblank_bounds[of ?g 0 0] nonblank_bounds[of ?g 0 6]
    by auto
  then show ?thesis
    using getSheet_nonempty[of st] assms
    by (simp add: normalized_REQUIRED REQUIRED_not_OLD_6)
qed

lemma headerCells_writeRow:
  "headerCells (writeRow (Suc 0) (Suc 0) (map Str REQUIRED_HEADERS) g) 7 = map Str REQUIRED_HEADERS"
  by (simp add: headerCells_eq_iff cellAt_writeRow)

lemma getLastRow_writeHeader:
  "getLastRow (writeRow (Suc 0) (Suc 0) (map Str REQUIRED_HEADERS) g) = max (Suc 0) (getLastRow g)"
proof (rule eq_from_le_iff)
  fix n
  let ?g = "writeRow (Suc 0) (Suc 0) (map Str REQUIRED_HEADERS) g"
  have nb: "cellAt ?g 0 0 \<noteq> blank"
    by (simp add: cellAt_writeRow REQUIRED_HEADERS_def)
  show "getLastRow ?g \<le> n \<longleftrightarrow> max (Suc 0) (getLastRow g) \<le> n"
  proof (cases n)
    case 0
    then show ?thesis using nonblank_bounds(1)[OF nb] by simp
  next
    case (Suc m)
    then show ?thesis
      by (simp add: getLastRow_le_iff cellAt_writeRow)
  qed
qed


lemma legacy_header_cells:
  assumes "headerCells g 6 = map Str OLD_HEADERS"
  shows "cellAt g 0 0 = Str ''EventName''" "cellAt g 0 1 = Str ''Year''" "cellAt g 0 2 = Str ''Era''"
    "cellAt g 0 3 = Str ''NumericYear''" "cellAt g 0 4 = Str ''Abbreviation''"
    "cellAt g 0 5 = Str ''Description''"
  using headerCells_nth[of 0 6 g] headerCells_nth[of 1 6 g] headerCells_nth[of 2 6 g]
    headerCells_nth[of 3 6 g] headerCells_nth[of 4 6 g] headerCells_nth[of 5 6 g] assms
  by (simp_all add: OLD_HEADERS_def)

lemma legacy_detected:
  assumes "headerCells g 6 = map Str OLD_HEADERS"
  shows "take 6 (normalized (headerCells g 7)) = OLD_HEADERS"
proof -
  have "take 6 (normalized (headerCells g 7)) = normalized (headerCells g 6)"
    by (simp add: normalized_def headerCells_def take_map)
  then show ?thesis
    by (simp add: assms normalized_OLD)
qed

lemma getLastRow_shifted:
  assumes "0 < getLastRow g"
  shows "getLastRow (writeRow (Suc 0) (Suc 0) (map Str REQUIRED_HEADERS) (insertColumnBefore (Suc 0) g)) = getLastRow g"
proof -
  let ?g1 = "insertColumnBefore (Suc 0) g"
  have "getLastRow ?g1 \<le> n \<longleftrightarrow> getLastRow g \<le> n" for n
    unfolding getLastRow_le_iff cellAt_insertColumn1[simplified]
    by (metis Zero_neq_Suc diff_Suc_1)
  then have "getLastRow ?g1 = getLastRow g"
    by (rule eq_from_le_iff)
  then show ?thesis
    using assms by (simp add: getLastRow_writeHeader)
qed

lemma cellAt_fill_column:
  "1 \<le> r \<Longrightarrow> 1 \<le> c \<Longrightarrow> cellAt (writeRows r c (replicate nr [v]) g) i j =
     (if r - 1 \<le> i \<and> i < r - 1 + nr \<and> j = c - 1 then v else cellAt g i j)"
  using cellAt_fill[of r c nr "Suc 0" v g i j] by auto

lemma cellAt_migrated:
  assumes "0 < getLastRow g"
  shows "cellAt (migrated g) r c =
     (if r = 0 \<and> c < 7 then Str (REQUIRED_HEADERS ! c)
      else if c = 0 then (if 1 \<le> r \<and> r < getLastRow g then Str ''Timeline 1'' else blank)
      else cellAt g r (c - 1))"
  using assms
  by (auto simp: migrated_def Let_def getLastRow_shifted cellAt_fill_column cellAt_writeRow
      cellAt_insertColumn1[simplified])


lemma getSheet_legacy:
  assumes "faults st = []" and "headerCells (grid_of st) 6 = map Str OLD_HEADERS"
  shows "getSheet st = (Ok (), st\<lparr>sheet := Some (migrated (grid_of st))\<rparr>)"
    and "0 < getLastRow (grid_of st)"
proof -
  show pos: "0 < getLastRow (grid_of st)"
    using legacy_header_cells(1)[OF assms(2)] nonblank_bounds(1)[of "grid_of st" 0 0] by simp
  show "getSheet st = (Ok (), st\<lparr>sheet := Some (migrated (grid_of st))\<rparr>)"
    using getSheet_nonempty[of st] assms(1) pos legacy_detected[OF assms(2)]
    by (simp add: migrated_def Let_def)
qed

section \<open>Claims about the schema\<close>

text \<open>
  Claim C1. Take a sheet whose first six header cells are exactly the legacy labels and
  whose content is six columns wide, with N data rows below the header (the last row
  with content is row N + 1). On a store that does not fail, one call of \<open>getSheet\<close>
  returns, and afterwards the sheet is seven columns wide, its header is the required
  header, every one of the N data rows has \<open>"Timeline 1"\<close> in its first cell, the last
  row with content is still row N + 1, and the old cells of the data rows sit one column
  to the right.
\<close>

theorem getSheet_migrates_legacy:
  assumes "faults st = []"
    and "headerCells (grid_of st) 6 = map Str OLD_HEADERS"
    and "getLastColumn (grid_of st) = 6"
  shows "fst (getSheet st) = Ok () \<and>
         getLastColumn (schemaGrid st) = 7 \<and>
         headerCells (schemaGrid st) 7 = map Str REQUIRED_HEADERS \<and>
         (\<forall>r. 1 \<le> r \<and> r < getLastRow (grid_of st) \<longrightarrow>
              cellAt (schemaGrid st) r 0 = Str ''Timeline 1'') \<and>
         getLastRow (schemaGrid st) = getLastRow (grid_of st) \<and>
         (\<forall>r c. 1 \<le> r \<longrightarrow> cellAt (schemaGrid st) r (Suc c) = cellAt (grid_of st) r c)"
proof -
  let ?g = "grid_of st"
  note run = getSheet_legacy[OF assms(1,2)]
  have sg: "schemaGrid st = migrated ?g"
    by (simp add: schemaGrid_def run(1))
  note cell = cellAt_migrated[OF run(2)]
  have rows: "getLastRow (migrated ?g) = getLastRow ?g"
  proof (rule eq_from_le_iff)
    fix n
    show "getLastRow (migrated ?g) \<le> n \<longleftrightarrow> getLastRow ?g \<le> n"
    proof (cases n)
      case 0
      have "cellAt (migrated ?g) 0 0 \<noteq> blank"
        by (simp add: cell REQUIRED_HEADERS_def)
      then show ?thesis
        using nonblank_bounds(1)[of "migrated ?g" 0 0] run(2) 0 by simp
    next
      case (Suc m)
      have "getLastRow ?g \<le> n" if "\<forall>r c. n \<le> r \<longrightarrow> cellAt (migrated ?g) r c = blank"
      proof -
        have "cellAt ?g r c = blank" if "n \<le> r" for r c
          using \<open>\<forall>r c. n \<le> r \<longrightarrow> cellAt (migrated ?g) r c = blank\<close>[rule_format, of r "Suc c"] that Suc
          by (simp add: cell)
        then show ?thesis by (simp add: getLastRow_le_iff)
      qed
      moreover have "cellAt (migrated ?g) r c = blank" if "getLastRow ?g \<le> n" "n \<le> r" for r c
        using that Suc getLastRow_le_iff[of ?g n] by (auto simp: cell)
      ultimately show ?thesis
        by (auto simp: getLastRow_le_iff[of "migrated ?g"])
    qed
  qed
  have wide: "cellAt ?g r c = blank" if "6 \<le> c" for r c
    using getLastColumn_le_iff[of ?g 6] assms(3) that by simp
  have "getLastColumn (migrated ?g) \<le> 7"
    unfolding getLastColumn_le_iff using wide by (auto simp: cell)
  moreover have "6 < getLastColumn (migrated ?g)"
    using nonblank_bounds(2)[of "migrated ?g" 0 6] by (simp add: cell REQUIRED_HEADERS_def)
  ultimately have cols: "getLastColumn (migrated ?g) = 7"
    by simp
  have hdr: "headerCells (migrated ?g) 7 = map Str REQUIRED_HEADERS"
    by (simp add: headerCells_eq_iff cell)
  show ?thesis
    unfolding sg using run(1) rows cols hdr by (simp add: cell)
qed

theorem getSheet_migrates_legacy_witness:
  "faults legacyStore = [] \<and>
   headerCells (grid_of legacyStore) 6 = map Str OLD_HEADERS \<and>
   getLastColumn (grid_of legacyStore) = 6 \<and>
   getLastRow (grid_of legacyStore) = 4 \<and>
   getLastColumn (schemaGrid legacyStore) = 7 \<and>
   headerCells (schemaGrid legacyStore) 7 = map Str REQUIRED_HEADERS \<and>
   cellAt (schemaGrid legacyStore) 1 0 = Str ''Timeline 1'' \<and>
   cellAt (schemaGrid legacyStore) 2 0 = Str ''Timeline 1'' \<and>
   cellAt (schemaGrid legacyStore) 3 0 = Str ''Timeline 1'' \<and>
   getLastRow (schemaGrid legacyStore) = 4"
proof -
  have h1: "faults legacyStore = []"
    by (simp add: legacyStore_def)
  have h2: "headerCells (grid_of legacyStore) 6 = map Str OLD_HEADERS"
    by code_simp
  have h3: "getLastColumn (grid_of legacyStore) = 6"
    by code_simp
  have h4: "getLastRow (grid_of legacyStore) = 4"
    by code_simp
  show ?thesis
    using getSheet_migrates_legacy[OF h1 h2 h3] h1 h2 h3 h4 by simp
qed


text \<open>
  Claim C7. On a sheet whose header row already holds the seven required labels, a call
  of \<open>getSheet\<close> on a store that does not fail returns and leaves the store as it
  was: header, data rows, column count and row count are those before the call.
\<close>

theorem getSheet_idempotent:
  assumes "faults st = []" and "headerCells (grid_of st) 7 = map Str REQUIRED_HEADERS"
  shows "getSheet st = (Ok (), st)"
  using assms by (rule getSheet_noop)

theorem getSheet_idempotent_witness:
  "faults timelineStore = [] \<and>
   headerCells (grid_of timelineStore) 7 = map Str REQUIRED_HEADERS \<and>
   getSheet timelineStore = (Ok (), timelineStore)"
proof -
  have h1: "faults timelineStore = []"
    by (simp add: timelineStore_def)
  have h2: "headerCells (grid_of timelineStore) 7 = map Str REQUIRED_HEADERS"
    by code_simp
  show ?thesis
    by (rule conjI [OF h1 conjI [OF h2 getSheet_idempotent [OF h1 h2]]])
qed

section \<open>Claims about decoding\<close>

text \<open>
  Claim C4, as the code has it. A row whose timelineName cell is the empty string or
  \<open>null\<close> decodes to an event whose timelineName is \<open>"Untitled"\<close>; the
  placeholder \<open>"Timeline 1"\<close> is what \<open>addEvent\<close>, \<open>updateEvent\<close> and the
  migration write, not what the grouped read substitutes.
\<close>

theorem decodeRow_absent_timeline:
  assumes "js_index row 0 = blank \<or> js_index row 0 = Null"
  shows "timelineName (decodeRow row) = ''Untitled''"
  using assms by (auto simp: decodeRow_def js_or_def Let_def)

theorem decodeRow_absent_timeline_witness:
  "(js_index [Null, Str ''X'', Num 5, Str ''CE''] 0 = blank \<or>
    js_index [Null, Str ''X'', Num 5, Str ''CE''] 0 = Null) \<and>
   timelineName (decodeRow [Null, Str ''X'', Num 5, Str ''CE'']) = ''Untitled''"
proof -
  have h: "js_index [Null, Str ''X'', Num 5, Str ''CE''] 0 = blank \<or>
           js_index [Null, Str ''X'', Num 5, Str ''CE''] 0 = Null"
    by (simp add: js_index_def)
  show ?thesis
    by (rule conjI [OF h decodeRow_absent_timeline [OF h]])
qed

text \<open>The claim as stated fails on a row with an empty first cell, for the decoder and
  for \<open>getEventsGrouped\<close> as a whole.\<close>

theorem decodeRow_placeholder_counterexample:
  "timelineName (decodeRow [blank, Str ''X'', Num 5, Str ''CE'', Num 5, Str ''X'', Str ''d''])
     \<noteq> ''Timeline 1'' \<and>
   fst (getEventsGrouped untitledStore) =
     Ok \<lparr> timelines =
            [\<lparr> tl_name = ''Untitled'',
               events = [\<lparr> name = Str ''X'', year = Num 5, era = Str ''CE'', numericYear = Num 5,
                           abbreviation = Str ''X'', description = Str ''d'',
                           timelineName = ''Untitled'' \<rparr>] \<rparr>],
          timelineNames = [''Untitled''] \<rparr>"
proof -
  have "timelineName (decodeRow [blank, Str ''X'', Num 5, Str ''CE'', Num 5, Str ''X'', Str ''d''])
          = ''Untitled''"
    by (simp add: decodeRow_def js_index_def js_or_def)
  moreover have "fst (getEventsGrouped untitledStore) =
     Ok \<lparr> timelines =
            [\<lparr> tl_name = ''Untitled'',
               events = [\<lparr> name = Str ''X'', year = Num 5, era = Str ''CE'', numericYear = Num 5,
                           abbreviation = Str ''X'', description = Str ''d'',
                           timelineName = ''Untitled'' \<rparr>] \<rparr>],
          timelineNames = [''Untitled''] \<rparr>"
    by code_simp
  ultimately show ?thesis
    by simp
qed

section \<open>The store after the schema check\<close>

lemma sheet_update_same: "sheet st = Some g \<Longrightarrow> st\<lparr>sheet := Some g\<rparr> = st"
  by (cases st) simp

lemma schemaGrid_empty:
  assumes "faults st = []" "getLastRow (grid_of st) = 0"
  shows "schemaGrid st = writeRow (Suc 0) (Suc 0) (map Str REQUIRED_HEADERS) (grid_of st)"
  by (simp add: schemaGrid_def getSheet_empty[OF assms])

lemma schemaGrid_nonempty:
  assumes "faults st = []" "getLastRow (grid_of st) \<noteq> 0"
  shows "schemaGrid st =
    (if take 6 (normalized (headerCells (grid_of st) 7)) = OLD_HEADERS then migrated (grid_of st)
     else if normalized (headerCells (grid_of st) 7) \<noteq> REQUIRED_HEADERS \<or>
             getLastColumn (grid_of st) < 7
          then writeRow (Suc 0) (Suc 0) (map Str REQUIRED_HEADERS) (grid_of st)
          else grid_of st)"
  unfolding schemaGrid_def getSheet_nonempty[OF assms]
  by (simp add: migrated_def Let_def)

lemma getSheet_run:
  assumes "faults st = []"
  shows "getSheet st = (Ok (), st\<lparr>sheet := Some (schemaGrid st)\<rparr>)"
proof (cases "getLastRow (grid_of st) = 0")
  case True
  show ?thesis
    by (simp add: schemaGrid_def getSheet_empty[OF assms True])
next
  case False
  then obtain g where s: "sheet st = Some g"
    by (cases "sheet st") (auto simp: getLastRow_def)
  have same: "st\<lparr>sheet := Some (grid_of st)\<rparr> = st"
    using s by (simp add: sheet_update_same)
  show ?thesis
    unfolding schemaGrid_nonempty[OF assms False] getSheet_nonempty[OF assms False]
    by (simp add: migrated_def Let_def same)
qed

lemma schemaGrid_noop:
  assumes "faults st = []" "headerCells (grid_of st) 7 = map Str REQUIRED_HEADERS"
  shows "schemaGrid st = grid_of st"
  by (simp add: schemaGrid_def getSheet_noop[OF assms])


lemma getLastRow_migrated:
  assumes "0 < getLastRow g"
  shows "getLastRow (migrated g) = getLastRow g"
proof (rule eq_from_le_iff)
  fix n
  note cell = cellAt_migrated[OF assms]
  show "getLastRow (migrated g) \<le> n \<longleftrightarrow> getLastRow g \<le> n"
  proof (cases n)
    case 0
    have "cellAt (migrated g) 0 0 \<noteq> blank"
      by (simp add: cell REQUIRED_HEADERS_def)
    then show ?thesis
      using nonblank_bounds(1)[of "migrated g" 0 0] assms 0 by simp
  next
    case (Suc m)
    have "getLastRow g \<le> n" if a: "\<forall>r c. n \<le> r \<longrightarrow> cellAt (migrated g) r c = blank"
    proof -
      have "cellAt g r c = blank" if "n \<le> r" for r c
        using a[rule_format, of r "Suc c"] that Suc by (simp add: cell)
      then show ?thesis by (simp add: getLastRow_le_iff)
    qed
    moreover have "cellAt (migrated g) r c = blank" if "getLastRow g \<le> n" "n \<le> r" for r c
      using that Suc getLastRow_le_iff[of g n] by (auto simp: cell)
    ultimately show ?thesis
      by (auto simp: getLastRow_le_iff[of "migrated g"])
  qed
qed

lemma getLastRow_schemaGrid:
  assumes "faults st = []"
  shows "getLastRow (schemaGrid st) = max 1 (getLastRow (grid_of st))"
proof (cases "getLastRow (grid_of st) = 0")
  case True
  show ?thesis
    by (simp add: schemaGrid_empty[OF assms True] getLastRow_writeHeader True)
next
  case False
  then have pos: "0 < getLastRow (grid_of st)" by simp
  show ?thesis
    unfolding schemaGrid_nonempty[OF assms False]
    using pos by (simp add: getLastRow_migrated getLastRow_writeHeader)
qed

section \<open>The operations on a store that does not fail\<close>

lemma getEventsGrouped_run:
  assumes "faults st = []"
  shows "getEventsGrouped st =
    (if getLastRow (schemaGrid st) < 2
     then (Ok \<lparr> timelines = [], timelineNames = [] \<rparr>, st\<lparr>sheet := Some (schemaGrid st)\<rparr>)
     else (case groupRows (dataRows (schemaGrid st)) [] of
             Inl e \<Rightarrow> (Throw e, st\<lparr>sheet := Some (schemaGrid st)\<rparr>)
           | Inr m \<Rightarrow>
               (Ok \<lparr> timelines = map (\<lambda>k. \<lparr> tl_name = k, events = sortEvents (lookupGroup m k) \<rparr>)
                                     (sort (map fst m)),
                     timelineNames = sort (map fst m) \<rparr>,
                st\<lparr>sheet := Some (schemaGrid st)\<rparr>)))"
  using assms
  by (simp add: getEventsGrouped_def andThen_def getSheet_run rd_ok getRange_ok ret_def throw_def
      dataRows_def Let_def comp_def split: sum.splits del: getValues.simps)


lemma updateEvent_run:
  assumes "faults st = []" and "original ev = Some k"
  shows "updateEvent (Some ev) st =
    (if getLastRow (schemaGrid st) < 2
     then (Ok \<lparr> success = False, message = ''No events to update.'' \<rparr>,
           st\<lparr>sheet := Some (schemaGrid st)\<rparr>)
     else (case findIndex (keyMatches k) (dataRows (schemaGrid st)) of
             None \<Rightarrow> (Ok \<lparr> success = False, message = ''Event not found for update.'' \<rparr>,
                      st\<lparr>sheet := Some (schemaGrid st)\<rparr>)
           | Some i \<Rightarrow>
               (let row = dataRows (schemaGrid st) ! i
                in case parseInt (js_coalesce (in_year ev) (js_index row 2)) of
                     None \<Rightarrow> (Ok \<lparr> success = False, message = ''Year must be a number.'' \<rparr>,
                              st\<lparr>sheet := Some (schemaGrid st)\<rparr>)
                   | Some y \<Rightarrow>
                       (Ok \<lparr> success = True, message = ''Event updated successfully.'' \<rparr>,
                        st\<lparr>sheet := Some (writeRow (i + 2) (Suc 0)
                          [js_or (in_timelineName ev) (js_or (js_index row 0) (Str ''Timeline 1'')),
                           Str (js_String (js_or (in_name ev) (js_or (js_index row 1) blank))),
                           Num y,
                           Str (js_String (js_or (in_era ev) (js_or (js_index row 3) (Str ''CE'')))),
                           Num (computeNumericYear (Num y)
                                  (Str (js_String (js_or (in_era ev)
                                                    (js_or (js_index row 3) (Str ''CE'')))))),
                           Str (makeAbbreviation
                                  (Str (js_String (js_or (in_name ev)
                                                    (js_or (js_index row 1) blank))))),
                           Str (js_String (js_coalesce (in_description ev)
                                             (js_coalesce (js_index row 6) blank)))]
                          (schemaGrid st))\<rparr>))))"
  using assms
  by (simp add: updateEvent_def tryCatch_def andThen_def getSheet_run rd_ok wr_ok getRange_ok
      ret_def dataRows_def Let_def split: option.splits del: getValues.simps)

section \<open>Finding rows\<close>

lemma findIndex_Some:
  "findIndex P xs = Some i \<Longrightarrow> i < length xs \<and> P (xs ! i) \<and> (\<forall>j<i. \<not> P (xs ! j))"
proof (induction xs arbitrary: i)
  case Nil
  then show ?case by simp
next
  case (Cons x xs)
  show ?case
  proof (cases "P x")
    case True
    with Cons.prems show ?thesis by simp
  next
    case False
    with Cons.prems obtain i' where i': "findIndex P xs = Some i'" "i = Suc i'"
      by auto
    from Cons.IH[OF i'(1)] False i'(2) show ?thesis
      by (auto simp: nth_Cons split: nat.splits)
  qed
qed

lemma findIndex_None: "findIndex P xs = None \<longleftrightarrow> (\<forall>x\<in>set xs. \<not> P x)"
  by (induction xs) auto

lemma length_dataRows: "length (dataRows g) = getLastRow g - 1"
  by (simp add: dataRows_def) arith

lemma dataRows_nth:
  assumes "i < getLastRow g - 1"
  shows "dataRows g ! i = map (cellAt g (Suc i)) [0 ..< 7]"
proof -
  have "[Suc 0 ..< Suc 0 + (getLastRow g - 1)] ! i = Suc i"
    using assms by (subst nth_upt) auto
  then show ?thesis
    using assms by (simp add: dataRows_def)
qed

lemma dataRows_eqI:
  assumes "getLastRow g' = getLastRow g"
    and "\<And>r c. 1 \<le> r \<Longrightarrow> r < getLastRow g \<Longrightarrow> c < 7 \<Longrightarrow> cellAt g' r c = cellAt g r c"
  shows "dataRows g' = dataRows g"
  using assms by (auto simp: list_eq_iff_nth_eq length_dataRows dataRows_nth)






lemma findIndex_first:
  assumes "i < length xs" "P (xs ! i)" "\<forall>j<i. \<not> P (xs ! j)"
  shows "findIndex P xs = Some i"
proof -
  have "findIndex P xs \<noteq> None"
    using assms(1,2) by (auto simp: findIndex_None)
  then obtain i' where i': "findIndex P xs = Some i'"
    by auto
  from findIndex_Some[OF i'] assms have "i' = i"
    by (metis linorder_neqE_nat)
  with i' show ?thesis by simp
qed

section \<open>Claims about deleting\<close>




section \<open>Claims about updating\<close>

lemma js_index_dataRows:
  "i < length (dataRows g) \<Longrightarrow> c < 7 \<Longrightarrow> js_index (dataRows g ! i) c = cellAt g (Suc i) c"
  by (simp add: length_dataRows dataRows_nth js_index_def)

lemma nullish_parseInt: "nullish v \<Longrightarrow> parseInt v = None"
  by (cases v)
     (simp_all add: parseInt_def parseInt_str_def isWhite_def isDigit_def)

lemma updateEvent_found:
  assumes "faults st = []" and "original ev = Some k"
    and "i < length (dataRows (schemaGrid st))"
    and "keyMatches k (dataRows (schemaGrid st) ! i)"
    and "\<forall>i'<i. \<not> keyMatches k (dataRows (schemaGrid st) ! i')"
  shows "updateEvent (Some ev) st =
     (let row = dataRows (schemaGrid st) ! i
      in case parseInt (js_coalesce (in_year ev) (js_index row 2)) of
           None \<Rightarrow> (Ok \<lparr> success = False, message = ''Year must be a number.'' \<rparr>,
                    st\<lparr>sheet := Some (schemaGrid st)\<rparr>)
         | Some y \<Rightarrow>
             (Ok \<lparr> success = True, message = ''Event updated successfully.'' \<rparr>,
              st\<lparr>sheet := Some (writeRow (i + 2) (Suc 0)
                [js_or (in_timelineName ev) (js_or (js_index row 0) (Str ''Timeline 1'')),
                 Str (js_String (js_or (in_name ev) (js_or (js_index row 1) blank))),
                 Num y,
                 Str (js_String (js_or (in_era ev) (js_or (js_index row 3) (Str ''CE'')))),
                 Num (computeNumericYear (Num y)
                        (Str (js_String (js_or (in_era ev)
                                          (js_or (js_index row 3) (Str ''CE'')))))),
                 Str (makeAbbreviation
                        (Str (js_String (js_or (in_name ev) (js_or (js_index row 1) blank))))),
                 Str (js_String (js_coalesce (in_description ev)
                                   (js_coalesce (js_index row 6) blank)))]
                (schemaGrid st))\<rparr>))"
proof -
  have found: "findIndex (keyMatches k) (dataRows (schemaGrid st)) = Some i"
    using assms(3-5) by (intro findIndex_first) auto
  have ne: "\<not> getLastRow (schemaGrid st) < 2"
    using assms(3) by (simp add: length_dataRows)
  show ?thesis
    unfolding updateEvent_run[OF assms(1,2)] using ne found by simp
qed


lemma computeNumericYear_Num:
  "computeNumericYear (Num y) e = (if e = Str ''BC'' then - \<bar>y\<bar> else \<bar>y\<bar>)"
  by (simp add: computeNumericYear_def parseInt_Num)

lemma below_seven: "c < 7 \<Longrightarrow> c \<in> {0, 1, 2, 3, 4, 5, 6::nat}"
  by auto

text \<open>
  Claim C5, as the code has it. Let the store not fail, let row \<open>i\<close> be the topmost
  data row (after the schema check) that matches the original key under \<open>String\<close>
  coercion, let its timelineName, name and era cells hold non-empty text and its
  description cell hold text, and let the input carry nothing but the original key and a
  new year that \<open>parseInt\<close> reads as \<open>y\<close>. Then \<open>updateEvent\<close> reports success, and
  the sheet afterwards differs from the sheet before in at most three cells, all in that
  row: the year cell holds \<open>y\<close>, the numericYear cell holds \<open>y\<close> signed by the stored
  era, and the abbreviation cell holds the abbreviation recomputed from the stored name.
  The row stays where it is and its timelineName, name, era and description cells, like
  every other row, are untouched.
\<close>

theorem updateEvent_year_only:
  assumes "faults st = []"
    and "original ev = Some k"
    and "in_timelineName ev = Undefined" and "in_name ev = Undefined"
    and "in_era ev = Undefined" and "in_description ev = Undefined"
    and "parseInt (in_year ev) = Some y"
    and "i < length (dataRows (schemaGrid st))"
    and "keyMatches k (dataRows (schemaGrid st) ! i)"
    and "\<forall>i'<i. \<not> keyMatches k (dataRows (schemaGrid st) ! i')"
    and "cellAt (schemaGrid st) (Suc i) 0 = Str tn" and "tn \<noteq> []"
    and "cellAt (schemaGrid st) (Suc i) 1 = Str nm" and "nm \<noteq> []"
    and "cellAt (schemaGrid st) (Suc i) 3 = Str er" and "er \<noteq> []"
    and "cellAt (schemaGrid st) (Suc i) 6 = Str ds"
  shows "fst (updateEvent (Some ev) st) =
           Ok \<lparr> success = True, message = ''Event updated successfully.'' \<rparr> \<and>
         (\<forall>r c. cellAt (grid_of (snd (updateEvent (Some ev) st))) r c =
            (if r = Suc i \<and> c = 2 then Num y
             else if r = Suc i \<and> c = 4 then Num (if er = ''BC'' then - \<bar>y\<bar> else \<bar>y\<bar>)
             else if r = Suc i \<and> c = 5 then Str (makeAbbreviation (Str nm))
             else cellAt (schemaGrid st) r c))"
proof -
  let ?G = "schemaGrid st"
  let ?row = "dataRows ?G ! i"
  have cells: "js_index ?row 0 = Str tn" "js_index ?row 1 = Str nm" "js_index ?row 3 = Str er"
    "js_index ?row 6 = Str ds"
    using assms(8,11,13,15,17) by (simp_all add: js_index_dataRows)
  have v0: "js_or (in_timelineName ev) (js_or (js_index ?row 0) (Str ''Timeline 1'')) = Str tn"
    unfolding cells using assms(3,12) by (simp add: js_or_def)
  have v1: "js_String (js_or (in_name ev) (js_or (js_index ?row 1) blank)) = nm"
    unfolding cells using assms(4,14) by (simp add: js_or_def)
  have v3: "js_String (js_or (in_era ev) (js_or (js_index ?row 3) (Str ''CE''))) = er"
    unfolding cells using assms(5,16) by (simp add: js_or_def)
  have v6: "js_String (js_coalesce (in_description ev) (js_coalesce (js_index ?row 6) blank)) = ds"
    unfolding cells using assms(6) by (simp add: js_coalesce_def)
  have year: "parseInt (js_coalesce (in_year ev) (js_index ?row 2)) = Some y"
    using nullish_parseInt[of "in_year ev"] assms(7) by (auto simp: js_coalesce_def)
  let ?new = "[Str tn, Str nm, Num y, Str er, Num (if er = ''BC'' then - \<bar>y\<bar> else \<bar>y\<bar>),
               Str (makeAbbreviation (Str nm)), Str ds]"
  have res: "updateEvent (Some ev) st =
      (Ok \<lparr> success = True, message = ''Event updated successfully.'' \<rparr>,
       st\<lparr>sheet := Some (writeRow (Suc (Suc i)) (Suc 0) ?new ?G)\<rparr>)"
    unfolding updateEvent_found[OF assms(1,2,8,9,10)] Let_def v0 v1 v3 v6 year
    by (simp add: computeNumericYear_Num)
  have "cellAt (writeRow (Suc (Suc i)) (Suc 0) ?new ?G) r c =
            (if r = Suc i \<and> c = 2 then Num y
             else if r = Suc i \<and> c = 4 then Num (if er = ''BC'' then - \<bar>y\<bar> else \<bar>y\<bar>)
             else if r = Suc i \<and> c = 5 then Str (makeAbbreviation (Str nm))
             else cellAt ?G r c)" for r c
  proof (cases "r = Suc i \<and> c < 7")
    case True
    then show ?thesis
      using below_seven[of c] assms(11,13,15,17)
      by (auto simp: cellAt_writeRow)
  next
    case False
    then show ?thesis
      by (auto simp: cellAt_writeRow)
  qed
  then show ?thesis
    by (simp add: res)
qed


theorem updateEvent_year_only_witness:
  "fst (updateEvent (Some (yearOnly (Num 10) keyX)) timelineStore) =
     Ok \<lparr> success = True, message = ''Event updated successfully.'' \<rparr> \<and>
   cellAt (grid_of (snd (updateEvent (Some (yearOnly (Num 10) keyX)) timelineStore))) 2 2 = Num 10 \<and>
   cellAt (grid_of (snd (updateEvent (Some (yearOnly (Num 10) keyX)) timelineStore))) 2 4 = Num 10 \<and>
   cellAt (grid_of (snd (updateEvent (Some (yearOnly (Num 10) keyX)) timelineStore))) 2 1 =
     cellAt (schemaGrid timelineStore) 2 1 \<and>
   cellAt (grid_of (snd (updateEvent (Some (yearOnly (Num 10) keyX)) timelineStore))) 2 3 =
     cellAt (schemaGrid timelineStore) 2 3 \<and>
   cellAt (grid_of (snd (updateEvent (Some (yearOnly (Num 10) keyX)) timelineStore))) 2 6 =
     cellAt (schemaGrid timelineStore) 2 6 \<and>
   cellAt (grid_of (snd (updateEvent (Some (yearOnly (Num 10) keyX)) timelineStore))) 4 2 =
     cellAt (schemaGrid timelineStore) 4 2"
proof -
  let ?D = "dataRows (schemaGrid timelineStore)"
  let ?ev = "yearOnly (Num 10) keyX"
  have h1: "faults timelineStore = []"
    by (simp add: timelineStore_def)
  have h2: "original ?ev = Some keyX"
    and h3: "in_timelineName ?ev = Undefined" and h4: "in_name ?ev = Undefined"
    and h5: "in_era ?ev = Undefined" and h6: "in_description ?ev = Undefined"
    by (simp_all add: yearOnly_def)
  have h7: "parseInt (in_year ?ev) = Some 10"
    by (simp add: yearOnly_def parseInt_Num)
  have h8: "1 < length ?D"
    by code_simp
  have h9: "keyMatches keyX (?D ! 1)"
    by code_simp
  have m0: "\<not> keyMatches keyX (?D ! 0)"
    by code_simp
  have h10: "\<forall>i'<1. \<not> keyMatches keyX (?D ! i')"
    using m0 by simp
  have c0: "cellAt (schemaGrid timelineStore) (Suc 1) 0 = Str ''A''"
    and c1: "cellAt (schemaGrid timelineStore) (Suc 1) 1 = Str ''X''"
    and c3: "cellAt (schemaGrid timelineStore) (Suc 1) 3 = Str ''CE''"
    and c6: "cellAt (schemaGrid timelineStore) (Suc 1) 6 = Str ''d2''"
    by code_simp+
  have ne: "''A'' \<noteq> []" "''X'' \<noteq> []" "''CE'' \<noteq> []"
    by simp_all
  note t = updateEvent_year_only [OF h1 h2 h3 h4 h5 h6 h7 h8 h9 h10 c0 ne(1) c1 ne(2) c3 ne(3) c6]
  note cell = t [THEN conjunct2, rule_format]
  show ?thesis
    using t [THEN conjunct1] cell [of 2 2] cell [of 2 4] cell [of 2 1] cell [of 2 3] cell [of 2 6]
      cell [of 4 2]
    by simp
qed

text \<open>The claim as stated fails where the stored abbreviation is not the one
  \<open>makeAbbreviation\<close> gives for the stored name, and where the stored era is empty: a
  call that carries only a new year rewrites the abbreviation cell in the first case and
  the era cell in the second.\<close>

theorem updateEvent_year_only_counterexample:
  "cellAt (grid_of timelineStore) 2 5 = Str ''ZZ'' \<and>
   fst (updateEvent (Some (yearOnly (Num 10) keyX)) timelineStore) =
     Ok \<lparr> success = True, message = ''Event updated successfully.'' \<rparr> \<and>
   cellAt (grid_of (snd (updateEvent (Some (yearOnly (Num 10) keyX)) timelineStore))) 2 5 = Str ''X'' \<and>
   cellAt (grid_of blankEraStore) 1 3 = blank \<and>
   fst (updateEvent (Some (yearOnly (Num 10) keyBlankEra)) blankEraStore) =
     Ok \<lparr> success = True, message = ''Event updated successfully.'' \<rparr> \<and>
   cellAt (grid_of (snd (updateEvent (Some (yearOnly (Num 10) keyBlankEra)) blankEraStore))) 1 3 =
     Str ''CE''"
proof (intro conjI)
  show "cellAt (grid_of timelineStore) 2 5 = Str ''ZZ''"
    by code_simp
  show "fst (updateEvent (Some (yearOnly (Num 10) keyX)) timelineStore) =
     Ok \<lparr> success = True, message = ''Event updated successfully.'' \<rparr>"
    by code_simp
  show "cellAt (grid_of (snd (updateEvent (Some (yearOnly (Num 10) keyX)) timelineStore))) 2 5 =
     Str ''X''"
    by code_simp
  show "cellAt (grid_of blankEraStore) 1 3 = blank"
    by code_simp
  show "fst (updateEvent (Some (yearOnly (Num 10) keyBlankEra)) blankEraStore) =
     Ok \<lparr> success = True, message = ''Event updated successfully.'' \<rparr>"
    by code_simp
  show "cellAt (grid_of (snd (updateEvent (Some (yearOnly (Num 10) keyBlankEra)) blankEraStore))) 1 3 =
     Str ''CE''"
    by code_simp
qed




end
